theory Spec2Isabelle
  imports Main "HOL-Library.Word" "HOL-Library.Monad_Syntax"
begin

unbundle bit_operations_syntax

section \<open>The MSSP peripheral as the driver sees it\<close>

text \<open>
  The driver touches the hardware only through the special function registers of the
  PIC18 MSSP module. Their declarations come from the device header \<^verbatim>\<open>p18cxxx.h\<close>,
  which is the compiler's and fixes the position of every flag inside its register.
  The model does not depend on that layout: one sample of the peripheral gives the value
  of every register and of every bit-field the driver reads, each as a field of its own.
\<close>

type_synonym byte = "8 word"

record mssp =
  SSP1BUF :: byte
  SSP1CON1 :: byte
  SSP1CON2 :: byte
  WCOL :: bool
  SEN :: bool
  RSEN :: bool
  PEN :: bool
  ACKEN :: bool
  ACKSTAT :: bool
  BF :: bool
  R_W :: bool
  SSP1IF :: bool

text \<open>
  What the driver does to the peripheral: the bit-fields it sets, the bytes it loads into
  the buffer register and the bytes it takes out of it. The list of these actions, in
  program order, is the bus transaction the master requests.
\<close>

datatype action =
    SEN_set
  | RSEN_set
  | PEN_set
  | ACKDT_write bool
  | ACKEN_set
  | CKP_set
  | RCEN_set
  | SSP1BUF_write byte
  | SSP1BUF_read byte

text \<open>
  The registers are volatile: what a read returns is decided by the hardware and the
  devices on the bus, as a function of everything the driver has done so far and of the
  time that has passed. Time advances by one with every turn of a polling loop.
\<close>

type_synonym hardware = "action list \<Rightarrow> nat \<Rightarrow> mssp"

record bus =
  trace :: "action list"
  clock :: nat

definition rd :: "hardware \<Rightarrow> bus \<Rightarrow> mssp" where
  "rd hw s = hw (trace s) (clock s)"

definition emit :: "action \<Rightarrow> bus \<Rightarrow> bus" where
  "emit a s = s\<lparr>trace := trace s @ [a]\<rparr>"

text \<open>
  \<^verbatim>\<open>while (flag);\<close> The loop has no bound: when the flag never clears it does not
  return, which is the value \<open>None\<close>.
\<close>

partial_function (option) wait_while :: "hardware \<Rightarrow> (mssp \<Rightarrow> bool) \<Rightarrow> bus \<Rightarrow> bus option" where
  "wait_while hw busy s =
     (if busy (rd hw s) then wait_while hw busy (s\<lparr>clock := Suc (clock s)\<rparr>) else Some s)"

declare wait_while.simps [code]

section \<open>Bus signalling primitives\<close>

definition I2CStart :: "hardware \<Rightarrow> bus \<Rightarrow> bus option" where
  "I2CStart hw s = wait_while hw SEN (emit SEN_set s)"

definition I2CRestart :: "hardware \<Rightarrow> bus \<Rightarrow> bus option" where
  "I2CRestart hw s = wait_while hw RSEN (emit RSEN_set s)"

definition I2CStop :: "hardware \<Rightarrow> bus \<Rightarrow> bus option" where
  "I2CStop hw s = wait_while hw PEN (emit PEN_set s)"

definition I2CAck :: "hardware \<Rightarrow> bus \<Rightarrow> bus option" where
  "I2CAck hw s = wait_while hw ACKEN (emit ACKEN_set (emit (ACKDT_write False) s))"

definition I2CNotAck :: "hardware \<Rightarrow> bus \<Rightarrow> bus option" where
  "I2CNotAck hw s = wait_while hw ACKEN (emit ACKEN_set (emit (ACKDT_write True) s))"

text \<open>
  \<^verbatim>\<open>I2CWrite\<close> returns \<^verbatim>\<open>unsigned char\<close>, so \<^verbatim>\<open>return (-1)\<close> and \<^verbatim>\<open>return (-2)\<close>
  yield the bytes \<open>- 1\<close> and \<open>- 2\<close> of the 8-bit type. The last \<^verbatim>\<open>else if\<close> of the
  source has no \<^verbatim>\<open>else\<close>: control would leave the function without a value there.
  Its test is the negation of the one before it, read from the same sample, so that
  branch is never taken.
\<close>

definition I2CWrite :: "hardware \<Rightarrow> byte \<Rightarrow> bus \<Rightarrow> (byte \<times> bus) option" where
  "I2CWrite hw data_out s =
     (let s1 = emit (SSP1BUF_write data_out) s in
      if WCOL (rd hw s1) then Some (- 1, s1)
      else if SSP1CON1 (rd hw s1) AND 0x0F \<noteq> 0x08 \<and> SSP1CON1 (rd hw s1) AND 0x0F \<noteq> 0x0B then
        do {
          s2 \<leftarrow> wait_while hw (\<lambda>r. \<not> SSP1IF r) (emit CKP_set s1);
          if \<not> R_W (rd hw s2) \<and> \<not> BF (rd hw s2) then Some (- 2, s2) else Some (0, s2)
        }
      else if SSP1CON1 (rd hw s1) AND 0x0F = 0x08 \<or> SSP1CON1 (rd hw s1) AND 0x0F = 0x0B then
        do {
          s2 \<leftarrow> wait_while hw BF s1;
          s3 \<leftarrow> wait_while hw (\<lambda>r. SSP1CON2 r AND 0x1F \<noteq> 0 \<or> R_W r) s2;
          if ACKSTAT (rd hw s3) then Some (- 2, s3) else Some (0, s3)
        }
      else None)"

definition I2CRead :: "hardware \<Rightarrow> bus \<Rightarrow> (byte \<times> bus) option" where
  "I2CRead hw s =
     (let s1 = (if SSP1CON1 (rd hw s) AND 0x0F = 0x08 \<or> SSP1CON1 (rd hw s) AND 0x0F = 0x0B
                then emit RCEN_set s else s) in
      do {
        s2 \<leftarrow> wait_while hw (\<lambda>r. \<not> BF r) s1;
        let b = SSP1BUF (rd hw s2);
        Some (b, emit (SSP1BUF_read b) s2)
      })"

section \<open>Register access layer\<close>

text \<open>
  A caller's buffer is a pointer into memory: \<open>data i\<close> is the byte at offset \<open>i\<close>.
  The loop counters are \<^verbatim>\<open>unsigned char\<close>; \<^verbatim>\<open>i == (length - 1)\<close> is compared after
  promotion to \<^verbatim>\<open>int\<close>.
\<close>

type_synonym buffer = "nat \<Rightarrow> byte"

function ReadBytes_loop :: "hardware \<Rightarrow> byte \<Rightarrow> byte \<Rightarrow> buffer \<Rightarrow> bus \<Rightarrow> (buffer \<times> bus) option" where
  "ReadBytes_loop hw len i data s =
     (if i < len then
        do {
          (b, s1) \<leftarrow> I2CRead hw s;
          s2 \<leftarrow> (if uint i = uint len - 1 then I2CNotAck hw s1 else I2CAck hw s1);
          ReadBytes_loop hw len (i + 1) (data(unat i := b)) s2
        }
      else Some (data, s))"
  by pat_completeness auto
termination
  apply (relation "measure (\<lambda>(hw, len, i, data, s). unat len - unat i)")
   apply simp
  apply clarsimp
  apply unat_arith
  done

definition I2CDeviceReadBytes :: "hardware \<Rightarrow> byte \<Rightarrow> byte \<Rightarrow> byte \<Rightarrow> buffer \<Rightarrow> bus \<Rightarrow> (buffer \<times> bus) option" where
  "I2CDeviceReadBytes hw deviceAddress address len data s =
     do {
       s1 \<leftarrow> I2CStart hw s;
       (_, s2) \<leftarrow> I2CWrite hw (deviceAddress AND 0xFE) s1;
       (_, s3) \<leftarrow> I2CWrite hw address s2;
       s4 \<leftarrow> I2CRestart hw s3;
       (_, s5) \<leftarrow> I2CWrite hw (deviceAddress OR 0x01) s4;
       (data', s6) \<leftarrow> ReadBytes_loop hw len 0 data s5;
       s7 \<leftarrow> I2CStop hw s6;
       Some (data', s7)
     }"

function WriteBytes_loop :: "hardware \<Rightarrow> byte \<Rightarrow> byte \<Rightarrow> buffer \<Rightarrow> bus \<Rightarrow> bus option" where
  "WriteBytes_loop hw len i data s =
     (if i < len then
        do {
          (_, s1) \<leftarrow> I2CWrite hw (data (unat i)) s;
          WriteBytes_loop hw len (i + 1) data s1
        }
      else Some s)"
  by pat_completeness auto
termination
  apply (relation "measure (\<lambda>(hw, len, i, data, s). unat len - unat i)")
   apply simp
  apply clarsimp
  apply unat_arith
  done

definition I2CDeviceWriteBytes :: "hardware \<Rightarrow> byte \<Rightarrow> byte \<Rightarrow> byte \<Rightarrow> buffer \<Rightarrow> bus \<Rightarrow> bus option" where
  "I2CDeviceWriteBytes hw deviceAddress address len data s =
     do {
       s1 \<leftarrow> I2CStart hw s;
       (_, s2) \<leftarrow> I2CWrite hw (deviceAddress AND 0xFE) s1;
       (_, s3) \<leftarrow> I2CWrite hw address s2;
       s4 \<leftarrow> WriteBytes_loop hw len 0 data s3;
       I2CStop hw s4
     }"

text \<open>\<^verbatim>\<open>unsigned char b = 0; I2CDeviceReadBytes(deviceAddress, address, 1, &b); return b;\<close>\<close>

definition I2CDeviceReadByte :: "hardware \<Rightarrow> byte \<Rightarrow> byte \<Rightarrow> bus \<Rightarrow> (byte \<times> bus) option" where
  "I2CDeviceReadByte hw deviceAddress address s =
     do {
       (data', s1) \<leftarrow> I2CDeviceReadBytes hw deviceAddress address 1 (\<lambda>_. 0) s;
       Some (data' 0, s1)
     }"

definition I2CDeviceWriteByte :: "hardware \<Rightarrow> byte \<Rightarrow> byte \<Rightarrow> byte \<Rightarrow> bus \<Rightarrow> bus option" where
  "I2CDeviceWriteByte hw deviceAddress address val s =
     I2CDeviceWriteBytes hw deviceAddress address 1 (\<lambda>_. val) s"

text \<open>
  The shifts of the bit helpers are computed in \<^verbatim>\<open>int\<close> and the result is cut to 8 bits
  when it is returned or stored in an \<^verbatim>\<open>unsigned char\<close>; on \<open>byte\<close>, \<open>push_bit\<close> drops
  the bits above bit 7 in the same way.
\<close>

definition I2CDeviceReadBit :: "hardware \<Rightarrow> byte \<Rightarrow> byte \<Rightarrow> byte \<Rightarrow> bus \<Rightarrow> (byte \<times> bus) option" where
  "I2CDeviceReadBit hw deviceAddress address bit' s =
     do {
       (b, s1) \<leftarrow> I2CDeviceReadByte hw deviceAddress address s;
       Some (b AND push_bit (unat bit') 1, s1)
     }"

text \<open>
  \<^verbatim>\<open>for (i = bitStart; i > bitStart - length; i--)\<close>: \<open>i\<close> is an \<^verbatim>\<open>unsigned char\<close> and
  wraps from 0 to 255, the bound \<^verbatim>\<open>bitStart - length\<close> is an \<^verbatim>\<open>int\<close> and may be
  negative. Nothing bounds the number of turns, so the loop is a partial function.
\<close>

partial_function (option) ReadBits_loop :: "byte \<Rightarrow> byte \<Rightarrow> byte \<Rightarrow> byte \<Rightarrow> byte \<Rightarrow> byte option" where
  "ReadBits_loop b bitStart len i r =
     (if uint i > uint bitStart - uint len
      then ReadBits_loop b bitStart len (i - 1) (r OR (b AND push_bit (unat i) 1))
      else Some r)"

declare ReadBits_loop.simps [code]

definition I2CDeviceReadBits :: "hardware \<Rightarrow> byte \<Rightarrow> byte \<Rightarrow> byte \<Rightarrow> byte \<Rightarrow> bus \<Rightarrow> (byte \<times> bus) option" where
  "I2CDeviceReadBits hw deviceAddress address bitStart len s =
     do {
       (b, s1) \<leftarrow> I2CDeviceReadByte hw deviceAddress address s;
       r \<leftarrow> ReadBits_loop b bitStart len bitStart 0;
       Some (drop_bit (nat (uint bitStart - uint len + 1)) r, s1)
     }"

definition I2CDeviceWriteBit :: "hardware \<Rightarrow> byte \<Rightarrow> byte \<Rightarrow> byte \<Rightarrow> byte \<Rightarrow> bus \<Rightarrow> bus option" where
  "I2CDeviceWriteBit hw deviceAddress address bit' val s =
     do {
       (b, s1) \<leftarrow> I2CDeviceReadByte hw deviceAddress address s;
       let b = (if val \<noteq> 0 then b OR push_bit (unat bit') 1 else b AND NOT (push_bit (unat bit') 1));
       I2CDeviceWriteByte hw deviceAddress address b s1
     }"

text \<open>
  \<^verbatim>\<open>mask = (0xFF << (8 - length)) | (0xFF >> (bitStart + length - 1));\<close> is an
  \<^verbatim>\<open>int\<close> expression stored in an \<^verbatim>\<open>unsigned char\<close>.
\<close>

definition WriteBits_mask :: "byte \<Rightarrow> byte \<Rightarrow> byte" where
  "WriteBits_mask bitStart len =
     word_of_int (push_bit (nat (8 - uint len)) (0xFF :: int)
                  OR drop_bit (nat (uint bitStart + uint len - 1)) (0xFF :: int))"

definition I2CDeviceWriteBits :: "hardware \<Rightarrow> byte \<Rightarrow> byte \<Rightarrow> byte \<Rightarrow> byte \<Rightarrow> byte \<Rightarrow> bus \<Rightarrow> bus option" where
  "I2CDeviceWriteBits hw deviceAddress address bitStart len val s =
     do {
       (b, s1) \<leftarrow> I2CDeviceReadByte hw deviceAddress address s;
       let mask = WriteBits_mask bitStart len;
       let val = push_bit (nat (8 - uint len)) val;
       let val = drop_bit (nat (7 - uint bitStart)) val;
       let b = b AND mask;
       let b = b OR val;
       I2CDeviceWriteByte hw deviceAddress address b s1
     }"

section \<open>Assumptions on the hardware, and two simulated buses\<close>

text \<open>
  The driver is a bus master: the mode bits \<^verbatim>\<open>SSP1CON1 & 0x0F\<close> read 0x08 or 0x0B.
\<close>

definition master_mode :: "hardware \<Rightarrow> bool" where
  "master_mode hw \<longleftrightarrow>
     (\<forall>tr t. SSP1CON1 (hw tr t) AND 0x0F = 0x08 \<or> SSP1CON1 (hw tr t) AND 0x0F = 0x0B)"

text \<open>
  The hardware finishes what it is asked for: some time after a condition is requested
  its flag clears, some time after a byte is loaded the buffer empties and the module
  goes idle, and some time after reception is enabled the buffer fills. A bus that hangs
  does not satisfy this.
\<close>

definition completes :: "hardware \<Rightarrow> bool" where
  "completes hw \<longleftrightarrow>
     (\<forall>tr t.
        (\<exists>k. \<not> SEN (hw (tr @ [SEN_set]) (t + k))) \<and>
        (\<exists>k. \<not> RSEN (hw (tr @ [RSEN_set]) (t + k))) \<and>
        (\<exists>k. \<not> PEN (hw (tr @ [PEN_set]) (t + k))) \<and>
        (\<exists>k. \<not> ACKEN (hw (tr @ [ACKEN_set]) (t + k))) \<and>
        (\<exists>k. BF (hw (tr @ [RCEN_set]) (t + k))) \<and>
        (\<forall>b. \<exists>k. \<not> BF (hw (tr @ [SSP1BUF_write b]) (t + k))) \<and>
        (\<forall>b. \<exists>k. SSP1CON2 (hw (tr @ [SSP1BUF_write b]) (t + k)) AND 0x1F = 0
                   \<and> \<not> R_W (hw (tr @ [SSP1BUF_write b]) (t + k))))"

subsection \<open>An idealized lossless bus\<close>

text \<open>
  The idealized lossless bus of the specification's round-trip properties, as a
  simulated peripheral: every addressing byte is
  acknowledged, the device selected by the upper seven bits of the addressing byte keeps
  a file of byte registers, the byte after a write-mode address sets its register
  pointer, further bytes are stored at the pointer, and every byte clocked in after a
  read-mode address is the register at the pointer. The pointer advances by one per data
  byte. Nothing is lost, nothing collides and every request finishes at once.
\<close>

datatype phase = Idle | Addressing | Pointer | Writing | Reading

record slave =
  regs :: "byte \<Rightarrow> byte \<Rightarrow> byte"
  sel :: byte
  ptr :: byte
  phase :: phase
  rxbuf :: byte
  full :: bool

fun slave_step :: "slave \<Rightarrow> action \<Rightarrow> slave" where
  "slave_step d SEN_set = d\<lparr>phase := Addressing\<rparr>"
| "slave_step d RSEN_set = d\<lparr>phase := Addressing\<rparr>"
| "slave_step d PEN_set = d\<lparr>phase := Idle\<rparr>"
| "slave_step d (SSP1BUF_write b) =
     (case phase d of
        Addressing \<Rightarrow> d\<lparr>sel := b AND 0xFE, phase := (if bit b 0 then Reading else Pointer), full := False\<rparr>
      | Pointer \<Rightarrow> d\<lparr>ptr := b, phase := Writing, full := False\<rparr>
      | Writing \<Rightarrow> d\<lparr>regs := (regs d)(sel d := (regs d (sel d))(ptr d := b)), ptr := ptr d + 1, full := False\<rparr>
      | _ \<Rightarrow> d\<lparr>full := False\<rparr>)"
| "slave_step d RCEN_set =
     (if phase d = Reading
      then d\<lparr>rxbuf := regs d (sel d) (ptr d), ptr := ptr d + 1, full := True\<rparr>
      else d\<lparr>rxbuf := 0xFF, full := True\<rparr>)"
| "slave_step d (SSP1BUF_read b) = d\<lparr>full := False\<rparr>"
| "slave_step d (ACKDT_write v) = d"
| "slave_step d ACKEN_set = d"
| "slave_step d CKP_set = d"

definition slave_after :: "(byte \<Rightarrow> byte \<Rightarrow> byte) \<Rightarrow> action list \<Rightarrow> slave" where
  "slave_after m tr =
     foldl slave_step \<lparr>regs = m, sel = 0, ptr = 0, phase = Idle, rxbuf = 0, full = False\<rparr> tr"

definition lossless_bus :: "(byte \<Rightarrow> byte \<Rightarrow> byte) \<Rightarrow> hardware" where
  "lossless_bus m tr t =
     \<lparr>SSP1BUF = rxbuf (slave_after m tr), SSP1CON1 = 0x28, SSP1CON2 = 0, WCOL = False,
      SEN = False, RSEN = False, PEN = False, ACKEN = False, ACKSTAT = False,
      BF = full (slave_after m tr), R_W = False, SSP1IF = True\<rparr>"

subsection \<open>A bus on which no device answers\<close>

text \<open>
  No slave acknowledges, so every byte written is answered by NACK and every byte read
  is 0xFF. Requests take time: after the \<open>n\<close>-th action the module is busy until the
  clock reaches \<open>lat * n\<close>.
\<close>

definition vacant_bus :: "nat \<Rightarrow> hardware" where
  "vacant_bus lat tr t =
     (let busy = (t < lat * length tr); rx = (tr \<noteq> [] \<and> last tr = RCEN_set) in
      \<lparr>SSP1BUF = 0xFF, SSP1CON1 = 0x28, SSP1CON2 = (if busy then 0x01 else 0), WCOL = False,
       SEN = busy, RSEN = busy, PEN = busy, ACKEN = busy, ACKSTAT = True,
       BF = (if rx then \<not> busy else busy), R_W = busy, SSP1IF = \<not> busy\<rparr>)"

definition idle_bus :: bus where
  "idle_bus = \<lparr>trace = [], clock = 0\<rparr>"

text \<open>
  The actions of one turn of the read loop of \<^verbatim>\<open>I2CDeviceReadBytes\<close>: receive a byte,
  then acknowledge it, or refuse it when it is the last one.
\<close>

definition read_cycle :: "buffer \<Rightarrow> byte \<Rightarrow> nat \<Rightarrow> action list" where
  "read_cycle data len j =
     [RCEN_set, SSP1BUF_read (data j), ACKDT_write (Suc j = unat len), ACKEN_set]"

text \<open>The bytes loaded into the transmit buffer, in order.\<close>

fun loaded :: "action list \<Rightarrow> byte list" where
  "loaded [] = []"
| "loaded (SSP1BUF_write b # as) = b # loaded as"
| "loaded (a # as) = loaded as"

text \<open>Buffers and register files that hold one value everywhere.\<close>

definition fill :: "byte \<Rightarrow> buffer" where
  "fill v = (\<lambda>_. v)"

definition uniform :: "byte \<Rightarrow> byte \<Rightarrow> byte \<Rightarrow> byte" where
  "uniform v = (\<lambda>_ _. v)"

text \<open>The register a simulated device holds after the bus history of \<open>s\<close>.\<close>

definition register_of :: "(byte \<Rightarrow> byte \<Rightarrow> byte) \<Rightarrow> byte \<Rightarrow> byte \<Rightarrow> bus \<Rightarrow> byte" where
  "register_of m deviceAddress address s =
     regs (slave_after m (trace s)) (deviceAddress AND 0xFE) address"



subsection \<open>The module as a transmitting slave\<close>


section \<open>Polling\<close>

lemma wait_while_finishes:
  "\<not> busy (hw (trace s) (clock s + k)) \<Longrightarrow>
   \<exists>j. wait_while hw busy s = Some (s\<lparr>clock := clock s + j\<rparr>) \<and> \<not> busy (hw (trace s) (clock s + j))"
proof (induction k arbitrary: s)
  case 0
  then have "wait_while hw busy s = Some s" by (subst wait_while.simps) (simp add: rd_def)
  with 0 show ?case by (intro exI [of _ 0]) simp
next
  case (Suc k)
  show ?case
  proof (cases "busy (rd hw s)")
    case False
    then have "wait_while hw busy s = Some s" by (subst wait_while.simps) simp
    with False show ?thesis by (intro exI [of _ 0]) (simp add: rd_def)
  next
    case True
    let ?s = "s\<lparr>clock := Suc (clock s)\<rparr>"
    from Suc.prems have "\<not> busy (hw (trace ?s) (clock ?s + k))" by simp
    from Suc.IH [OF this] obtain j where
      j: "wait_while hw busy ?s = Some (?s\<lparr>clock := clock ?s + j\<rparr>)"
         "\<not> busy (hw (trace ?s) (clock ?s + j))" by blast
    from True have "wait_while hw busy s = wait_while hw busy ?s"
      by (subst wait_while.simps) simp
    with j show ?thesis by (intro exI [of _ "Suc j"]) simp
  qed
qed

lemma wait_while_returns:
  assumes "\<exists>k. \<not> busy (hw tr (clock s + k))" and "trace s = tr"
  shows "\<exists>s'. wait_while hw busy s = Some s' \<and> trace s' = tr \<and> \<not> busy (rd hw s')"
proof -
  from assms obtain k where "\<not> busy (hw (trace s) (clock s + k))" by blast
  from wait_while_finishes [of busy hw s k, OF this] obtain j where
    "wait_while hw busy s = Some (s\<lparr>clock := clock s + j\<rparr>)"
    "\<not> busy (hw (trace s) (clock s + j))" by blast
  with assms(2) show ?thesis by (simp add: rd_def)
qed

lemma I2CStart_trace:
  assumes "completes hw"
  shows "\<exists>s'. I2CStart hw s = Some s' \<and> trace s' = trace s @ [SEN_set]"
proof -
  have "\<exists>k. \<not> SEN (hw (trace s @ [SEN_set]) (clock (emit SEN_set s) + k))"
    using assms unfolding completes_def by blast
  from wait_while_returns [of SEN hw _ "emit SEN_set s", OF this] show ?thesis
    unfolding I2CStart_def by (simp add: emit_def) blast
qed

lemma I2CRestart_trace:
  assumes "completes hw"
  shows "\<exists>s'. I2CRestart hw s = Some s' \<and> trace s' = trace s @ [RSEN_set]"
proof -
  have "\<exists>k. \<not> RSEN (hw (trace s @ [RSEN_set]) (clock (emit RSEN_set s) + k))"
    using assms unfolding completes_def by blast
  from wait_while_returns [of RSEN hw _ "emit RSEN_set s", OF this] show ?thesis
    unfolding I2CRestart_def by (simp add: emit_def) blast
qed

lemma I2CStop_trace:
  assumes "completes hw"
  shows "\<exists>s'. I2CStop hw s = Some s' \<and> trace s' = trace s @ [PEN_set]"
proof -
  have "\<exists>k. \<not> PEN (hw (trace s @ [PEN_set]) (clock (emit PEN_set s) + k))"
    using assms unfolding completes_def by blast
  from wait_while_returns [of PEN hw _ "emit PEN_set s", OF this] show ?thesis
    unfolding I2CStop_def by (simp add: emit_def) blast
qed

lemma ack_cycle:
  assumes "completes hw"
  shows "\<exists>s'. wait_while hw ACKEN (emit ACKEN_set (emit (ACKDT_write v) s)) = Some s'
            \<and> trace s' = trace s @ [ACKDT_write v, ACKEN_set]"
proof -
  let ?s = "emit ACKEN_set (emit (ACKDT_write v) s)"
  have "\<exists>k. \<not> ACKEN (hw ((trace s @ [ACKDT_write v]) @ [ACKEN_set]) (clock ?s + k))"
    using assms unfolding completes_def by blast
  from wait_while_returns [of ACKEN hw _ ?s, OF this] show ?thesis
    by (simp add: emit_def) blast
qed

lemma I2CAck_trace:
  "completes hw \<Longrightarrow> \<exists>s'. I2CAck hw s = Some s' \<and> trace s' = trace s @ [ACKDT_write False, ACKEN_set]"
  unfolding I2CAck_def by (rule ack_cycle)

lemma I2CNotAck_trace:
  "completes hw \<Longrightarrow> \<exists>s'. I2CNotAck hw s = Some s' \<and> trace s' = trace s @ [ACKDT_write True, ACKEN_set]"
  unfolding I2CNotAck_def by (rule ack_cycle)

lemma I2CWrite_master:
  assumes "completes hw" and "master_mode hw"
  shows "\<exists>r s'. I2CWrite hw d s = Some (r, s') \<and> trace s' = trace s @ [SSP1BUF_write d]
           \<and> (r = 0 \<or> r = - 1 \<or> r = - 2)"
proof -
  let ?s1 = "emit (SSP1BUF_write d) s"
  have m: "SSP1CON1 (rd hw ?s1) AND 0x0F = 0x08 \<or> SSP1CON1 (rd hw ?s1) AND 0x0F = 0x0B"
    using assms(2) unfolding master_mode_def rd_def by blast
  have "\<exists>k. \<not> BF (hw (trace s @ [SSP1BUF_write d]) (clock ?s1 + k))"
    using assms(1) unfolding completes_def by blast
  from wait_while_returns [of BF hw _ ?s1, OF this] obtain s2 where
    s2: "wait_while hw BF ?s1 = Some s2" "trace s2 = trace s @ [SSP1BUF_write d]"
    by (auto simp: emit_def)
  let ?busy = "\<lambda>r. SSP1CON2 r AND 0x1F \<noteq> 0 \<or> R_W r"
  have "\<exists>k. \<not> ?busy (hw (trace s @ [SSP1BUF_write d]) (clock s2 + k))"
    using assms(1) unfolding completes_def by blast
  from wait_while_returns [of ?busy hw _ s2, OF this s2(2)] obtain s3 where
    s3: "wait_while hw ?busy s2 = Some s3" "trace s3 = trace s @ [SSP1BUF_write d]"
    by auto
  show ?thesis
    using m s2 s3 by (auto simp: I2CWrite_def Let_def emit_def)
qed

lemma I2CRead_master:
  assumes "completes hw" and "master_mode hw"
  shows "\<exists>b s'. I2CRead hw s = Some (b, s') \<and> trace s' = trace s @ [RCEN_set, SSP1BUF_read b]"
proof -
  let ?s1 = "emit RCEN_set s"
  have m: "SSP1CON1 (rd hw s) AND 0x0F = 0x08 \<or> SSP1CON1 (rd hw s) AND 0x0F = 0x0B"
    using assms(2) unfolding master_mode_def rd_def by blast
  have "\<exists>k. \<not> \<not> BF (hw (trace s @ [RCEN_set]) (clock ?s1 + k))"
    using assms(1) unfolding completes_def by blast
  from wait_while_returns [of "\<lambda>r. \<not> BF r" hw _ ?s1, OF this] obtain s2 where
    s2: "wait_while hw (\<lambda>r. \<not> BF r) ?s1 = Some s2" "trace s2 = trace s @ [RCEN_set]"
    by (auto simp: emit_def)
  show ?thesis
    using m s2 by (auto simp: I2CRead_def Let_def emit_def)
qed



declare WriteBytes_loop.simps [simp del] ReadBytes_loop.simps [simp del]

lemma unat_succ: "(i::byte) < len \<Longrightarrow> unat (i + 1) = Suc (unat i)"
  by unat_arith

lemma last_index: "uint (i::byte) = uint (len::byte) - 1 \<longleftrightarrow> Suc (unat i) = unat len"
  unfolding uint_nat by arith

lemma WriteBytes_loop_trace:
  assumes "completes hw" and "master_mode hw"
  shows "\<exists>s'. WriteBytes_loop hw len i data s = Some s'
           \<and> trace s' = trace s @ map (\<lambda>j. SSP1BUF_write (data j)) [unat i..<unat len]"
  using assms
proof (induction hw len i data s rule: WriteBytes_loop.induct)
  case (1 hw len i data s)
  show ?case
  proof (cases "i < len")
    case False
    then have "\<not> unat i < unat len" by (simp add: word_less_nat_alt)
    with False show ?thesis by (subst WriteBytes_loop.simps) simp
  next
    case True
    from I2CWrite_master [OF "1.prems"] obtain r s1 where
      w: "I2CWrite hw (data (unat i)) s = Some (r, s1)"
         "trace s1 = trace s @ [SSP1BUF_write (data (unat i))]" by blast
    from "1.IH" [OF True w(1) refl "1.prems"] obtain s' where
      l: "WriteBytes_loop hw len (i + 1) data s1 = Some s'"
         "trace s' = trace s1 @ map (\<lambda>j. SSP1BUF_write (data j)) [unat (i + 1)..<unat len]"
      by blast
    from True have u: "unat i < unat len" by (simp add: word_less_nat_alt)
    have "WriteBytes_loop hw len i data s = Some s'"
      using True w l by (subst WriteBytes_loop.simps) simp
    moreover have "trace s' = trace s @ map (\<lambda>j. SSP1BUF_write (data j)) [unat i..<unat len]"
      using w(2) l(2) u by (simp add: unat_succ [OF True] upt_conv_Cons)
    ultimately show ?thesis by blast
  qed
qed

lemma ReadBytes_loop_trace:
  assumes "completes hw" and "master_mode hw"
  shows "\<exists>data' s'. ReadBytes_loop hw len i data s = Some (data', s')
           \<and> trace s' = trace s @ concat (map (read_cycle data' len) [unat i..<unat len])
           \<and> (\<forall>j. j < unat i \<or> unat len \<le> j \<longrightarrow> data' j = data j)"
  using assms
proof (induction hw len i data s rule: ReadBytes_loop.induct)
  case (1 hw len i data s)
  show ?case
  proof (cases "i < len")
    case False
    then have "\<not> unat i < unat len" by (simp add: word_less_nat_alt)
    with False show ?thesis by (subst ReadBytes_loop.simps) simp
  next
    case True
    from True have u: "unat i < unat len" by (simp add: word_less_nat_alt)
    from I2CRead_master [OF "1.prems"] obtain b s1 where
      r: "I2CRead hw s = Some (b, s1)" "trace s1 = trace s @ [RCEN_set, SSP1BUF_read b]"
      by blast
    let ?ack = "if uint i = uint len - 1 then I2CNotAck hw s1 else I2CAck hw s1"
    have "\<exists>s2. ?ack = Some s2
            \<and> trace s2 = trace s1 @ [ACKDT_write (Suc (unat i) = unat len), ACKEN_set]"
    proof (cases "Suc (unat i) = unat len")
      case True
      with I2CNotAck_trace [OF "1.prems"(1), of s1] \<open>i < len\<close> show ?thesis
        by (simp add: last_index)
    next
      case False
      with I2CAck_trace [OF "1.prems"(1), of s1] \<open>i < len\<close> show ?thesis
        by (simp add: last_index)
    qed
    then obtain s2 where
      a: "?ack = Some s2" "trace s2 = trace s1 @ [ACKDT_write (Suc (unat i) = unat len), ACKEN_set]"
      by blast
    from "1.IH" [OF True r(1) refl a(1) "1.prems"] obtain data' s' where
      l: "ReadBytes_loop hw len (i + 1) (data(unat i := b)) s2 = Some (data', s')"
         "trace s' = trace s2 @ concat (map (read_cycle data' len) [unat (i + 1)..<unat len])"
         "\<forall>j. j < unat (i + 1) \<or> unat len \<le> j \<longrightarrow> data' j = (data(unat i := b)) j"
      by blast
    from l(3) have here: "data' (unat i) = b" by (simp add: unat_succ [OF True])
    have "ReadBytes_loop hw len i data s = Some (data', s')"
      using True r a l by (subst ReadBytes_loop.simps) simp
    moreover have "trace s' = trace s @ concat (map (read_cycle data' len) [unat i..<unat len])"
      using r(2) a(2) l(2) u here
      by (simp add: unat_succ [OF True] upt_conv_Cons read_cycle_def)
    moreover have "\<forall>j. j < unat i \<or> unat len \<le> j \<longrightarrow> data' j = data j"
      using l(3) u by (auto simp: unat_succ [OF True])
    ultimately show ?thesis by blast
  qed
qed

lemma WriteBytes_trace:
  assumes "completes hw" and "master_mode hw"
  shows "\<exists>s'. I2CDeviceWriteBytes hw deviceAddress address len data s = Some s'
           \<and> trace s' = trace s @ [SEN_set, SSP1BUF_write (deviceAddress AND 0xFE), SSP1BUF_write address]
                 @ map (\<lambda>j. SSP1BUF_write (data j)) [0..<unat len] @ [PEN_set]"
proof -
  from I2CStart_trace [OF assms(1)] obtain s1 where
    s1: "I2CStart hw s = Some s1" "trace s1 = trace s @ [SEN_set]" by blast
  from I2CWrite_master [OF assms] obtain r2 s2 where
    s2: "I2CWrite hw (deviceAddress AND 0xFE) s1 = Some (r2, s2)"
        "trace s2 = trace s1 @ [SSP1BUF_write (deviceAddress AND 0xFE)]" by blast
  from I2CWrite_master [OF assms] obtain r3 s3 where
    s3: "I2CWrite hw address s2 = Some (r3, s3)"
        "trace s3 = trace s2 @ [SSP1BUF_write address]" by blast
  from WriteBytes_loop_trace [OF assms, of len 0 data s3] obtain s4 where
    s4: "WriteBytes_loop hw len 0 data s3 = Some s4"
        "trace s4 = trace s3 @ map (\<lambda>j. SSP1BUF_write (data j)) [0..<unat len]" by auto
  from I2CStop_trace [OF assms(1)] obtain s5 where
    s5: "I2CStop hw s4 = Some s5" "trace s5 = trace s4 @ [PEN_set]" by blast
  have "I2CDeviceWriteBytes hw deviceAddress address len data s = Some s5"
    by (simp add: I2CDeviceWriteBytes_def s1 s2 s3 s4 s5)
  moreover have "trace s5 = trace s @ [SEN_set, SSP1BUF_write (deviceAddress AND 0xFE), SSP1BUF_write address]
                 @ map (\<lambda>j. SSP1BUF_write (data j)) [0..<unat len] @ [PEN_set]"
    by (simp add: s1 s2 s3 s4 s5)
  ultimately show ?thesis by blast
qed

lemma ReadBytes_trace:
  assumes "completes hw" and "master_mode hw"
  shows "\<exists>data' s'. I2CDeviceReadBytes hw deviceAddress address len data s = Some (data', s')
           \<and> trace s' = trace s @ [SEN_set, SSP1BUF_write (deviceAddress AND 0xFE), SSP1BUF_write address,
                                    RSEN_set, SSP1BUF_write (deviceAddress OR 0x01)]
                 @ concat (map (read_cycle data' len) [0..<unat len]) @ [PEN_set]
           \<and> (\<forall>j\<ge>unat len. data' j = data j)"
proof -
  from I2CStart_trace [OF assms(1)] obtain s1 where
    s1: "I2CStart hw s = Some s1" "trace s1 = trace s @ [SEN_set]" by blast
  from I2CWrite_master [OF assms] obtain r2 s2 where
    s2: "I2CWrite hw (deviceAddress AND 0xFE) s1 = Some (r2, s2)"
        "trace s2 = trace s1 @ [SSP1BUF_write (deviceAddress AND 0xFE)]" by blast
  from I2CWrite_master [OF assms] obtain r3 s3 where
    s3: "I2CWrite hw address s2 = Some (r3, s3)"
        "trace s3 = trace s2 @ [SSP1BUF_write address]" by blast
  from I2CRestart_trace [OF assms(1)] obtain s4 where
    s4: "I2CRestart hw s3 = Some s4" "trace s4 = trace s3 @ [RSEN_set]" by blast
  from I2CWrite_master [OF assms] obtain r5 s5 where
    s5: "I2CWrite hw (deviceAddress OR 0x01) s4 = Some (r5, s5)"
        "trace s5 = trace s4 @ [SSP1BUF_write (deviceAddress OR 0x01)]" by blast
  from ReadBytes_loop_trace [OF assms, of len 0 data s5] obtain data' s6 where
    s6: "ReadBytes_loop hw len 0 data s5 = Some (data', s6)"
        "trace s6 = trace s5 @ concat (map (read_cycle data' len) [0..<unat len])"
        "\<forall>j\<ge>unat len. data' j = data j" by auto
  from I2CStop_trace [OF assms(1)] obtain s7 where
    s7: "I2CStop hw s6 = Some s7" "trace s7 = trace s6 @ [PEN_set]" by blast
  have "I2CDeviceReadBytes hw deviceAddress address len data s = Some (data', s7)"
    by (simp add: I2CDeviceReadBytes_def s1 s2 s3 s4 s5 s6 s7)
  moreover have "trace s7 = trace s @ [SEN_set, SSP1BUF_write (deviceAddress AND 0xFE), SSP1BUF_write address,
                                    RSEN_set, SSP1BUF_write (deviceAddress OR 0x01)]
                 @ concat (map (read_cycle data' len) [0..<unat len]) @ [PEN_set]"
    by (simp add: s1 s2 s3 s4 s5 s6 s7)
  ultimately show ?thesis using s6(3) by blast
qed


section \<open>The simulated buses satisfy the assumptions\<close>

lemma slave_after_append:
  "slave_after m (tr @ as) = foldl slave_step (slave_after m tr) as"
  by (simp add: slave_after_def)

lemma lossless_master: "master_mode (lossless_bus m)"
  by (simp add: master_mode_def lossless_bus_def)

lemma lossless_completes: "completes (lossless_bus m)"
  by (simp add: completes_def lossless_bus_def slave_after_append split: phase.split)

lemma vacant_master: "master_mode (vacant_bus lat)"
  by (simp add: master_mode_def vacant_bus_def Let_def)

lemma vacant_completes: "completes (vacant_bus lat)"
proof -
  have "\<exists>k. \<not> t + k < lat + lat * n" for t n :: nat
    by (rule exI [of _ "lat + lat * n"]) simp
  then show ?thesis
    by (simp add: completes_def vacant_bus_def Let_def)
qed

section \<open>Transactions on the lossless bus\<close>

lemma byte_0xFE: "(0xFE :: byte) = NOT 1"
  by simp

lemma addr_bits:
  "\<not> bit (d AND 0xFE :: byte) 0" "bit (d OR 0x01 :: byte) 0"
  "(d OR 0x01) AND 0xFE = d AND (0xFE :: byte)" "(d AND 0xFE) AND 0xFE = d AND (0xFE :: byte)"
  unfolding byte_0xFE by (auto simp add: bit_eq_iff bit_simps)

lemmas run_defs =
  I2CDeviceReadByte_def I2CDeviceWriteByte_def I2CDeviceReadBytes_def I2CDeviceWriteBytes_def
  I2CStart_def I2CRestart_def I2CStop_def I2CAck_def I2CNotAck_def I2CWrite_def I2CRead_def
  ReadBytes_loop.simps WriteBytes_loop.simps wait_while.simps rd_def emit_def Let_def

lemma lossless_ReadByte:
  "\<exists>s'. I2CDeviceReadByte (lossless_bus m) dev reg s = Some (register_of m dev reg s, s')
      \<and> register_of m dev' reg' s' = register_of m dev' reg' s"
  by (simp add: run_defs lossless_bus_def slave_after_append addr_bits register_of_def)

lemma lossless_WriteByte:
  "\<exists>s'. I2CDeviceWriteByte (lossless_bus m) dev reg v s = Some s'
      \<and> register_of m dev reg s' = v"
  by (simp add: run_defs lossless_bus_def slave_after_append addr_bits register_of_def)


section \<open>Multi-byte write\<close>

lemma loaded_append: "loaded (xs @ ys) = loaded xs @ loaded ys"
  by (induction xs rule: loaded.induct) simp_all

lemma loaded_writes: "loaded (map (\<lambda>j. SSP1BUF_write (f j)) js) = map f js"
  by (induction js) simp_all

text \<open>
  C5. Whatever the device address, the register address, the length and the buffer, a
  call of \<^verbatim>\<open>I2CDeviceWriteBytes\<close> on hardware that finishes its requests returns, and
  what it has asked of the bus is exactly: a start condition, the device address with
  the direction bit cleared, the register address, the bytes \<open>data 0\<close> up to
  \<open>data (len - 1)\<close> in order, and a stop condition. This holds in particular when every
  byte is acknowledged; the scenario of address 0xB0, register 0x00 and value 0x10 is
  the witness.
\<close>

theorem C5_WriteBytes_emits:
  assumes "completes hw" and "master_mode hw"
  shows "\<exists>s'. I2CDeviceWriteBytes hw deviceAddress address len data s = Some s'
           \<and> trace s' = trace s @ [SEN_set, SSP1BUF_write (deviceAddress AND 0xFE), SSP1BUF_write address]
                 @ map (\<lambda>j. SSP1BUF_write (data j)) [0..<unat len] @ [PEN_set]
           \<and> \<not> bit (deviceAddress AND 0xFE) 0"
  using WriteBytes_trace [OF assms, of deviceAddress address len data s]
  by (simp add: addr_bits)

theorem C5_WriteBytes_emits_witness:
  "completes (lossless_bus (uniform 0)) \<and> master_mode (lossless_bus (uniform 0)) \<and>
   (\<exists>s'. I2CDeviceWriteBytes (lossless_bus (uniform 0)) 0xB0 0x00 1 (fill 0x10) idle_bus = Some s'
      \<and> trace s' = [SEN_set, SSP1BUF_write 0xB0, SSP1BUF_write 0x00, SSP1BUF_write 0x10, PEN_set])"
  using C5_WriteBytes_emits [OF lossless_completes lossless_master, of "uniform 0" "0xB0" 0 1 "fill 0x10" idle_bus]
  by (simp add: lossless_completes lossless_master idle_bus_def fill_def)

lemma scenario_0xB0:
  "I2CDeviceWriteByte (lossless_bus (uniform 0)) 0xB0 0x00 0x10 idle_bus =
     Some \<lparr>trace = [SEN_set, SSP1BUF_write 0xB0, SSP1BUF_write 0x00, SSP1BUF_write 0x10, PEN_set],
           clock = 0\<rparr>"
  by code_simp

text \<open>
  C3, as the code has it. The status that \<^verbatim>\<open>I2CWrite\<close> returns is dropped by
  \<^verbatim>\<open>I2CDeviceWriteBytes\<close>: whatever the hardware answers to each byte, NACK included,
  the bytes loaded into the transmit buffer are the device address, the register address
  and all \<open>len\<close> data bytes, in order, and the stop condition is requested after them.
  Nothing is abandoned after a NACK.
\<close>

theorem C3_WriteBytes_not_abandoned:
  assumes "completes hw" and "master_mode hw"
  shows "\<exists>s' pre. I2CDeviceWriteBytes hw deviceAddress address len data s = Some s'
           \<and> trace s' = trace s @ pre @ [PEN_set]
           \<and> loaded pre = (deviceAddress AND 0xFE) # address # map data [0..<unat len]"
proof -
  from WriteBytes_trace [OF assms, of deviceAddress address len data s] obtain s' where
    s': "I2CDeviceWriteBytes hw deviceAddress address len data s = Some s'"
        "trace s' = trace s @ [SEN_set, SSP1BUF_write (deviceAddress AND 0xFE), SSP1BUF_write address]
                 @ map (\<lambda>j. SSP1BUF_write (data j)) [0..<unat len] @ [PEN_set]" by blast
  let ?pre = "[SEN_set, SSP1BUF_write (deviceAddress AND 0xFE), SSP1BUF_write address]
                 @ map (\<lambda>j. SSP1BUF_write (data j)) [0..<unat len]"
  have "trace s' = trace s @ ?pre @ [PEN_set]" using s'(2) by simp
  moreover have "loaded ?pre = (deviceAddress AND 0xFE) # address # map data [0..<unat len]"
    by (simp add: loaded_writes)
  ultimately show ?thesis using s'(1) by blast
qed

theorem C3_WriteBytes_not_abandoned_witness:
  "completes (vacant_bus 1) \<and> master_mode (vacant_bus 1) \<and>
   (\<exists>s' pre. I2CDeviceWriteBytes (vacant_bus 1) 0xB0 0x00 2 (fill 0x10) idle_bus = Some s'
      \<and> trace s' = pre @ [PEN_set] \<and> loaded pre = [0xB0, 0x00, 0x10, 0x10])"
  using C3_WriteBytes_not_abandoned [OF vacant_completes vacant_master, of 1 "0xB0" 0 2 "fill 0x10" idle_bus]
  by (simp add: vacant_completes vacant_master idle_bus_def fill_def upt_conv_Cons)

text \<open>
  C3 as stated fails. On a bus where no device answers, the write of the device address
  0xB0 returns the NACK status \<open>- 2\<close>, and the transaction still loads the register
  address and the data byte before it stops.
\<close>

theorem C3_counterexample:
  "I2CStart (vacant_bus 1) idle_bus = Some \<lparr>trace = [SEN_set], clock = 1\<rparr> \<and>
   I2CWrite (vacant_bus 1) 0xB0 \<lparr>trace = [SEN_set], clock = 1\<rparr>
     = Some (- 2, \<lparr>trace = [SEN_set, SSP1BUF_write 0xB0], clock = 2\<rparr>) \<and>
   I2CDeviceWriteBytes (vacant_bus 1) 0xB0 0x00 1 (fill 0x10) idle_bus
     = Some \<lparr>trace = [SEN_set, SSP1BUF_write 0xB0, SSP1BUF_write 0x00, SSP1BUF_write 0x10, PEN_set],
             clock = 5\<rparr>"
  by code_simp

section \<open>The stop condition\<close>

lemma read_cycles_no_stop: "PEN_set \<notin> set (concat (map (read_cycle data len) js))"
  by (simp add: read_cycle_def)

text \<open>
  C6. On hardware that finishes its requests, every call of \<^verbatim>\<open>I2CDeviceWriteBytes\<close> and
  of \<^verbatim>\<open>I2CDeviceReadBytes\<close> returns, whatever the byte writes report (the collision flag
  and the acknowledge status of the hardware are arbitrary here), and among the actions of
  the call the stop condition is requested exactly once, as the last one. The functions
  are \<^verbatim>\<open>void\<close>: the model returns the bus (and the buffer, for a read) and no status.
\<close>

theorem C6_Stop_once:
  assumes "completes hw" and "master_mode hw"
  shows "(\<exists>s' pre. I2CDeviceWriteBytes hw deviceAddress address len data s = Some s'
            \<and> trace s' = trace s @ pre @ [PEN_set] \<and> PEN_set \<notin> set pre)
       \<and> (\<exists>data' s' pre. I2CDeviceReadBytes hw deviceAddress address len data s = Some (data', s')
            \<and> trace s' = trace s @ pre @ [PEN_set] \<and> PEN_set \<notin> set pre)"
proof
  from WriteBytes_trace [OF assms, of deviceAddress address len data s] obtain s' where
    s': "I2CDeviceWriteBytes hw deviceAddress address len data s = Some s'"
        "trace s' = trace s @ [SEN_set, SSP1BUF_write (deviceAddress AND 0xFE), SSP1BUF_write address]
                 @ map (\<lambda>j. SSP1BUF_write (data j)) [0..<unat len] @ [PEN_set]" by blast
  let ?pre = "[SEN_set, SSP1BUF_write (deviceAddress AND 0xFE), SSP1BUF_write address]
                 @ map (\<lambda>j. SSP1BUF_write (data j)) [0..<unat len]"
  have "trace s' = trace s @ ?pre @ [PEN_set]" using s'(2) by simp
  moreover have "PEN_set \<notin> set ?pre" by auto
  ultimately show "\<exists>s' pre. I2CDeviceWriteBytes hw deviceAddress address len data s = Some s'
            \<and> trace s' = trace s @ pre @ [PEN_set] \<and> PEN_set \<notin> set pre"
    using s'(1) by blast
next
  from ReadBytes_trace [OF assms, of deviceAddress address len data s] obtain data' s' where
    s': "I2CDeviceReadBytes hw deviceAddress address len data s = Some (data', s')"
        "trace s' = trace s @ [SEN_set, SSP1BUF_write (deviceAddress AND 0xFE), SSP1BUF_write address,
                                    RSEN_set, SSP1BUF_write (deviceAddress OR 0x01)]
                 @ concat (map (read_cycle data' len) [0..<unat len]) @ [PEN_set]" by blast
  let ?pre = "[SEN_set, SSP1BUF_write (deviceAddress AND 0xFE), SSP1BUF_write address,
                                    RSEN_set, SSP1BUF_write (deviceAddress OR 0x01)]
                 @ concat (map (read_cycle data' len) [0..<unat len])"
  have "trace s' = trace s @ ?pre @ [PEN_set]" using s'(2) by simp
  moreover have "PEN_set \<notin> set ?pre"
    using read_cycles_no_stop [of data' len "[0..<unat len]"] by simp
  ultimately show "\<exists>data' s' pre. I2CDeviceReadBytes hw deviceAddress address len data s = Some (data', s')
            \<and> trace s' = trace s @ pre @ [PEN_set] \<and> PEN_set \<notin> set pre"
    using s'(1) by blast
qed

theorem C6_Stop_once_witness:
  "completes (vacant_bus 1) \<and> master_mode (vacant_bus 1)
   \<and> (\<exists>s' pre. I2CDeviceWriteBytes (vacant_bus 1) 0xB0 0x00 1 (fill 0x10) idle_bus = Some s'
            \<and> trace s' = pre @ [PEN_set] \<and> PEN_set \<notin> set pre)
   \<and> (\<exists>data' s' pre. I2CDeviceReadBytes (vacant_bus 1) 0xB0 0x00 1 (fill 0) idle_bus = Some (data', s')
            \<and> trace s' = pre @ [PEN_set] \<and> PEN_set \<notin> set pre)"
  using C6_Stop_once [OF vacant_completes vacant_master, of 1 "0xB0" 0 1 "fill 0x10" idle_bus]
        C6_Stop_once [OF vacant_completes vacant_master, of 1 "0xB0" 0 1 "fill 0" idle_bus]
  by (simp add: vacant_completes vacant_master idle_bus_def)

text \<open>
  The case the specification singles out: the address byte is answered by NACK, and the
  call still ends in its one stop condition.
\<close>

lemma NACK_at_address_still_one_Stop:
  "I2CWrite (vacant_bus 1) 0xB0 \<lparr>trace = [SEN_set], clock = 1\<rparr>
     = Some (- 2, \<lparr>trace = [SEN_set, SSP1BUF_write 0xB0], clock = 2\<rparr>) \<and>
   map_option trace (I2CDeviceWriteBytes (vacant_bus 1) 0xB0 0x00 1 (fill 0x10) idle_bus)
     = Some [SEN_set, SSP1BUF_write 0xB0, SSP1BUF_write 0x00, SSP1BUF_write 0x10, PEN_set] \<and>
   map_option (trace \<circ> snd) (I2CDeviceReadBytes (vacant_bus 1) 0xB0 0x00 2 (fill 0) idle_bus)
     = Some [SEN_set, SSP1BUF_write 0xB0, SSP1BUF_write 0x00, RSEN_set, SSP1BUF_write 0xB1,
             RCEN_set, SSP1BUF_read 0xFF, ACKDT_write False, ACKEN_set,
             RCEN_set, SSP1BUF_read 0xFF, ACKDT_write True, ACKEN_set, PEN_set]"
  by code_simp

text \<open>The same bus with the collision flag always set: every byte write returns 0xFF.\<close>

lemma collision_still_one_Stop:
  "I2CWrite (\<lambda>tr t. (vacant_bus 0 tr t)\<lparr>WCOL := True\<rparr>) 0xB0 idle_bus
     = Some (0xFF, \<lparr>trace = [SSP1BUF_write 0xB0], clock = 0\<rparr>) \<and>
   I2CDeviceWriteBytes (\<lambda>tr t. (vacant_bus 0 tr t)\<lparr>WCOL := True\<rparr>) 0xB0 0x00 1 (fill 0x10) idle_bus
     = Some \<lparr>trace = [SEN_set, SSP1BUF_write 0xB0, SSP1BUF_write 0x00, SSP1BUF_write 0x10, PEN_set],
             clock = 0\<rparr>"
  by code_simp

section \<open>Transfers of length zero\<close>

text \<open>
  C10. With \<open>len = 0\<close> both functions still address the device and stop: the read emits
  start, address, register, restart, read-mode address, stop; the write emits start,
  address, register, stop. No data byte, no Ack and no NotAck is emitted. The buffer is
  not touched: the read hands it back as it was, and neither result depends on what the
  buffer holds.
\<close>

theorem C10_zero_length:
  assumes "completes hw" and "master_mode hw"
  shows "(\<exists>s'. I2CDeviceReadBytes hw deviceAddress address 0 data s = Some (data, s')
            \<and> trace s' = trace s @ [SEN_set, SSP1BUF_write (deviceAddress AND 0xFE), SSP1BUF_write address,
                                     RSEN_set, SSP1BUF_write (deviceAddress OR 0x01), PEN_set])
       \<and> (\<exists>s'. I2CDeviceWriteBytes hw deviceAddress address 0 data s = Some s'
            \<and> trace s' = trace s @ [SEN_set, SSP1BUF_write (deviceAddress AND 0xFE), SSP1BUF_write address,
                                     PEN_set])
       \<and> I2CDeviceWriteBytes hw deviceAddress address 0 data s
            = I2CDeviceWriteBytes hw deviceAddress address 0 other s
       \<and> map_option snd (I2CDeviceReadBytes hw deviceAddress address 0 data s)
            = map_option snd (I2CDeviceReadBytes hw deviceAddress address 0 other s)"
proof (intro conjI)
  from ReadBytes_trace [OF assms, of deviceAddress address 0 data s] obtain data' s' where
    s': "I2CDeviceReadBytes hw deviceAddress address 0 data s = Some (data', s')"
        "trace s' = trace s @ [SEN_set, SSP1BUF_write (deviceAddress AND 0xFE), SSP1BUF_write address,
                                    RSEN_set, SSP1BUF_write (deviceAddress OR 0x01)]
                 @ concat (map (read_cycle data' 0) [0..<unat (0 :: byte)]) @ [PEN_set]"
        "\<forall>j\<ge>unat (0 :: byte). data' j = data j" by blast
  from s'(3) have "data' = data" by (intro ext) simp
  with s'(1,2) show "\<exists>s'. I2CDeviceReadBytes hw deviceAddress address 0 data s = Some (data, s')
            \<and> trace s' = trace s @ [SEN_set, SSP1BUF_write (deviceAddress AND 0xFE), SSP1BUF_write address,
                                     RSEN_set, SSP1BUF_write (deviceAddress OR 0x01), PEN_set]"
    by simp
next
  from WriteBytes_trace [OF assms, of deviceAddress address 0 data s]
  show "\<exists>s'. I2CDeviceWriteBytes hw deviceAddress address 0 data s = Some s'
            \<and> trace s' = trace s @ [SEN_set, SSP1BUF_write (deviceAddress AND 0xFE), SSP1BUF_write address,
                                     PEN_set]"
    by simp
next
  have "WriteBytes_loop hw 0 0 data t = WriteBytes_loop hw 0 0 other t" for t
    by (simp add: WriteBytes_loop.simps)
  then show "I2CDeviceWriteBytes hw deviceAddress address 0 data s
            = I2CDeviceWriteBytes hw deviceAddress address 0 other s"
    by (simp add: I2CDeviceWriteBytes_def)
next
  have "ReadBytes_loop hw 0 0 d t = Some (d, t)" for d t
    by (simp add: ReadBytes_loop.simps)
  then show "map_option snd (I2CDeviceReadBytes hw deviceAddress address 0 data s)
            = map_option snd (I2CDeviceReadBytes hw deviceAddress address 0 other s)"
    by (simp add: I2CDeviceReadBytes_def split: Option.bind_split prod.split)
qed

theorem C10_zero_length_witness:
  "completes (lossless_bus (uniform 7)) \<and> master_mode (lossless_bus (uniform 7))
   \<and> (\<exists>s'. I2CDeviceReadBytes (lossless_bus (uniform 7)) 0xB0 0x00 0 (fill 0x55) idle_bus = Some (fill 0x55, s')
            \<and> trace s' = [SEN_set, SSP1BUF_write 0xB0, SSP1BUF_write 0x00, RSEN_set, SSP1BUF_write 0xB1, PEN_set])
   \<and> (\<exists>s'. I2CDeviceWriteBytes (lossless_bus (uniform 7)) 0xB0 0x00 0 (fill 0x55) idle_bus = Some s'
            \<and> trace s' = [SEN_set, SSP1BUF_write 0xB0, SSP1BUF_write 0x00, PEN_set])"
  using C10_zero_length [OF lossless_completes lossless_master, of "uniform 7" "0xB0" 0 "fill 0x55" idle_bus]
  by (simp add: lossless_completes lossless_master idle_bus_def)

section \<open>Multi-byte read\<close>

lemma read_cycles_split:
  assumes "0 < n" and "n = unat len"
  shows "concat (map (read_cycle data len) [0..<n]) =
           concat (map (\<lambda>j. [RCEN_set, SSP1BUF_read (data j), ACKDT_write False, ACKEN_set]) [0..<n - 1])
           @ [RCEN_set, SSP1BUF_read (data (n - 1)), ACKDT_write True, ACKEN_set]"
proof -
  from assms(1) have "[0..<n] = [0..<n - 1] @ [n - 1]"
    by (cases n) simp_all
  then have step: "concat (map (read_cycle data len) [0..<n]) =
               concat (map (read_cycle data len) [0..<n - 1]) @ read_cycle data len (n - 1)"
    by (metis (no_types, lifting) append_Nil2 concat.simps(1) concat.simps(2) concat_append list.simps(8) list.simps(9) map_append)
  have m: "map (read_cycle data len) [0..<n - 1] =
                 map (\<lambda>j. [RCEN_set, SSP1BUF_read (data j), ACKDT_write False, ACKEN_set]) [0..<n - 1]"
    using assms(2) by (intro map_cong) (auto simp: read_cycle_def)
  have l: "read_cycle data len (n - 1) = [RCEN_set, SSP1BUF_read (data (n - 1)), ACKDT_write True, ACKEN_set]"
    using assms by (simp add: read_cycle_def)
  show ?thesis by (simp only: step m l)
qed

text \<open>
  C4. For every length of at least 1, \<^verbatim>\<open>I2CDeviceReadBytes\<close> returns on hardware that
  finishes its requests, and it has emitted exactly: start, the device address in write
  form, the register address, a restart (no stop and no second start), the device address
  in read form, then for each index a byte read that is stored at that index of the
  buffer, followed by Ack for all but the last index and by NotAck for the last, and
  finally stop. The buffer beyond \<open>len\<close> is unchanged.
\<close>

theorem C4_ReadBytes_emits:
  assumes "completes hw" and "master_mode hw" and "1 \<le> unat len"
  shows "\<exists>data' s'. I2CDeviceReadBytes hw deviceAddress address len data s = Some (data', s')
           \<and> trace s' = trace s @ [SEN_set, SSP1BUF_write (deviceAddress AND 0xFE), SSP1BUF_write address,
                                    RSEN_set, SSP1BUF_write (deviceAddress OR 0x01)]
                 @ concat (map (\<lambda>j. [RCEN_set, SSP1BUF_read (data' j), ACKDT_write False, ACKEN_set])
                               [0..<unat len - 1])
                 @ [RCEN_set, SSP1BUF_read (data' (unat len - 1)), ACKDT_write True, ACKEN_set, PEN_set]
           \<and> (\<forall>j\<ge>unat len. data' j = data j)
           \<and> \<not> bit (deviceAddress AND 0xFE) 0 \<and> bit (deviceAddress OR 0x01) 0"
proof -
  from ReadBytes_trace [OF assms(1,2), of deviceAddress address len data s] obtain data' s' where
    s': "I2CDeviceReadBytes hw deviceAddress address len data s = Some (data', s')"
        "trace s' = trace s @ [SEN_set, SSP1BUF_write (deviceAddress AND 0xFE), SSP1BUF_write address,
                                    RSEN_set, SSP1BUF_write (deviceAddress OR 0x01)]
                 @ concat (map (read_cycle data' len) [0..<unat len]) @ [PEN_set]"
        "\<forall>j\<ge>unat len. data' j = data j" by blast
  from assms(3) have "0 < unat len" by simp
  from read_cycles_split [OF this refl, of data'] s'(2)
  have "trace s' = trace s @ [SEN_set, SSP1BUF_write (deviceAddress AND 0xFE), SSP1BUF_write address,
                                    RSEN_set, SSP1BUF_write (deviceAddress OR 0x01)]
                 @ concat (map (\<lambda>j. [RCEN_set, SSP1BUF_read (data' j), ACKDT_write False, ACKEN_set])
                               [0..<unat len - 1])
                 @ [RCEN_set, SSP1BUF_read (data' (unat len - 1)), ACKDT_write True, ACKEN_set, PEN_set]"
    by simp
  with s'(1,3) show ?thesis by (auto simp: addr_bits)
qed

theorem C4_ReadBytes_emits_witness:
  "completes (lossless_bus (uniform 7)) \<and> master_mode (lossless_bus (uniform 7)) \<and> 1 \<le> unat (2 :: byte)
   \<and> (\<exists>data' s'. I2CDeviceReadBytes (lossless_bus (uniform 7)) 0xB0 0x00 2 (fill 0) idle_bus = Some (data', s')
        \<and> trace s' = [SEN_set, SSP1BUF_write 0xB0, SSP1BUF_write 0x00, RSEN_set, SSP1BUF_write 0xB1,
                       RCEN_set, SSP1BUF_read (data' 0), ACKDT_write False, ACKEN_set,
                       RCEN_set, SSP1BUF_read (data' 1), ACKDT_write True, ACKEN_set, PEN_set])"
  using C4_ReadBytes_emits [OF lossless_completes lossless_master, of 2 "uniform 7" "0xB0" 0 "fill 0" idle_bus]
  by (simp add: lossless_completes lossless_master idle_bus_def) blast

lemma read_two_registers:
  "map_option (\<lambda>(d, s). (d 0, d 1, trace s))
     (I2CDeviceReadBytes (lossless_bus (uniform 7)) 0xB0 0x00 2 (fill 0) idle_bus)
   = Some (7, 7, [SEN_set, SSP1BUF_write 0xB0, SSP1BUF_write 0x00, RSEN_set, SSP1BUF_write 0xB1,
                  RCEN_set, SSP1BUF_read 7, ACKDT_write False, ACKEN_set,
                  RCEN_set, SSP1BUF_read 7, ACKDT_write True, ACKEN_set, PEN_set])"
  by code_simp

section \<open>Status codes of the byte write\<close>







text \<open>
  The polling decides the result: on hardware whose acknowledge status is clear while
  the byte is on the wire and set once the module is idle, the answer is NACK.
\<close>

lemma status_read_after_transfer:
  "I2CWrite (vacant_bus 2) 0xB0 \<lparr>trace = [SEN_set], clock = 2\<rparr>
     = Some (- 2, \<lparr>trace = [SEN_set, SSP1BUF_write 0xB0], clock = 4\<rparr>)"
  by code_simp

text \<open>
  In every mode the result is one of the three codes. Outside master mode the module is
  the transmitting slave and the NACK code is derived from \<^verbatim>\<open>R_W\<close> and \<^verbatim>\<open>BF\<close>.
\<close>

lemma I2CWrite_codes:
  "I2CWrite hw data_out s = Some (r, s') \<Longrightarrow> r = 0 \<or> r = - 1 \<or> r = - 2"
  by (auto simp: I2CWrite_def Let_def split: if_splits Option.bind_splits)

lemma I2CWrite_other_modes:
  assumes "I2CWrite hw data_out s = Some (r, s')"
    and "\<not> WCOL (rd hw (emit (SSP1BUF_write data_out) s))"
    and "SSP1CON1 (rd hw (emit (SSP1BUF_write data_out) s)) AND 0x0F \<noteq> 0x08"
    and "SSP1CON1 (rd hw (emit (SSP1BUF_write data_out) s)) AND 0x0F \<noteq> 0x0B"
  shows "(r = - 2 \<longleftrightarrow> \<not> R_W (rd hw s') \<and> \<not> BF (rd hw s'))
       \<and> (r = 0 \<longleftrightarrow> R_W (rd hw s') \<or> BF (rd hw s'))"
  using assms by (auto simp: I2CWrite_def Let_def split: if_splits Option.bind_splits)

lemma collision_example:
  "I2CWrite (\<lambda>tr t. (vacant_bus 0 tr t)\<lparr>WCOL := True\<rparr>) 0xB0 idle_bus
     = Some (0xFF, \<lparr>trace = [SSP1BUF_write 0xB0], clock = 0\<rparr>)"
  by code_simp

section \<open>Single bits\<close>

lemma single_bit:
  assumes "n < 8"
  shows "(x OR push_bit n 1) AND push_bit n (1 :: byte) \<noteq> 0"
    and "(x AND NOT (push_bit n 1)) AND push_bit n (1 :: byte) = 0"
    and "bit (x OR push_bit n (1 :: byte)) n"
    and "\<not> bit (x AND NOT (push_bit n (1 :: byte))) n"
    and "j \<noteq> n \<Longrightarrow> bit (x OR push_bit n (1 :: byte)) j = bit x j"
    and "j \<noteq> n \<Longrightarrow> bit (x AND NOT (push_bit n (1 :: byte))) j = bit x j"
proof -
  show 3: "bit (x OR push_bit n (1 :: byte)) n"
    using assms by (auto simp: bit_simps bit_exp_iff)
  have absorb: "(x OR y) AND y = y" for y :: byte
    by (auto simp: bit_eq_iff bit_and_iff bit_or_iff)
  have nz: "push_bit n (1 :: byte) \<noteq> 0"
    using assms by (simp add: exp_eq_zero_iff)
  show "(x OR push_bit n 1) AND push_bit n (1 :: byte) \<noteq> 0"
    unfolding absorb by (rule nz)
  show "(x AND NOT (push_bit n 1)) AND push_bit n (1 :: byte) = 0"
    by (simp add: and.assoc)
  show "\<not> bit (x AND NOT (push_bit n (1 :: byte))) n"
    using assms by (auto simp: bit_simps bit_exp_iff)
  show "j \<noteq> n \<Longrightarrow> bit (x OR push_bit n (1 :: byte)) j = bit x j"
    by (auto simp: bit_simps)
  show "j \<noteq> n \<Longrightarrow> bit (x AND NOT (push_bit n (1 :: byte))) j = bit x j"
    by (auto simp: bit_simps dest: bit_imp_le_length)
qed

lemma mask_one_bit:
  assumes "n < 8"
  shows "x AND push_bit n (1 :: byte) = (if bit x n then 2 ^ n else 0)"
    and "x AND push_bit n (1 :: byte) = 0 \<longleftrightarrow> \<not> bit x n"
    and "x AND push_bit n (1 :: byte) = 1 \<longleftrightarrow> n = 0 \<and> bit x 0"
proof -
  show eq: "x AND push_bit n (1 :: byte) = (if bit x n then 2 ^ n else 0)"
    using assms by (intro bit_eqI) (auto simp: bit_simps bit_exp_iff)
  have nz: "(2 :: byte) ^ n \<noteq> 0"
    using assms by (simp add: exp_eq_zero_iff)
  show "x AND push_bit n (1 :: byte) = 0 \<longleftrightarrow> \<not> bit x n"
    unfolding eq using nz by simp
  have "(2 :: byte) ^ n = 1 \<longleftrightarrow> n = 0"
  proof
    assume "(2 :: byte) ^ n = 1"
    then have "bit ((2 :: byte) ^ n) 0" by simp
    then show "n = 0" by (simp add: bit_exp_iff)
  qed simp
  then show "x AND push_bit n (1 :: byte) = 1 \<longleftrightarrow> n = 0 \<and> bit x 0"
    unfolding eq by auto
qed

text \<open>
  C8. On the lossless bus, for every device, register, prior content and bit position
  \<open>b\<close> from 0 to 7: \<^verbatim>\<open>I2CDeviceWriteBit\<close> followed by \<^verbatim>\<open>I2CDeviceReadBit\<close> of the same
  bit returns a nonzero value when a nonzero value was written and zero when zero was
  written, and every other bit of the register is as it was before the write.
\<close>

theorem C8_WriteBit_ReadBit:
  assumes "unat b \<le> 7"
  shows "\<exists>s1 r s2. I2CDeviceWriteBit (lossless_bus m) dev reg b v s = Some s1
           \<and> I2CDeviceReadBit (lossless_bus m) dev reg b s1 = Some (r, s2)
           \<and> (v \<noteq> 0 \<longrightarrow> r \<noteq> 0) \<and> (v = 0 \<longrightarrow> r = 0)
           \<and> (\<forall>j. j \<noteq> unat b \<longrightarrow> bit (register_of m dev reg s1) j = bit (register_of m dev reg s) j)"
proof -
  let ?L = "lossless_bus m" and ?n = "unat b"
  let ?old = "register_of m dev reg s"
  let ?new = "if v \<noteq> 0 then ?old OR push_bit ?n 1 else ?old AND NOT (push_bit ?n 1)"
  from assms have n: "?n < 8" by simp
  from lossless_ReadByte [of m dev reg s] obtain s0 where
    s0: "I2CDeviceReadByte ?L dev reg s = Some (?old, s0)" by blast
  from lossless_WriteByte [of m dev reg ?new s0] obtain s1 where
    s1: "I2CDeviceWriteByte ?L dev reg ?new s0 = Some s1" "register_of m dev reg s1 = ?new" by blast
  from lossless_ReadByte [of m dev reg s1] obtain s2 where
    s2: "I2CDeviceReadByte ?L dev reg s1 = Some (register_of m dev reg s1, s2)" by blast
  have w: "I2CDeviceWriteBit ?L dev reg b v s = Some s1"
    using s0 s1(1) by (simp add: I2CDeviceWriteBit_def Let_def)
  have r: "I2CDeviceReadBit ?L dev reg b s1 = Some (?new AND push_bit ?n 1, s2)"
    using s2 s1(2) by (simp add: I2CDeviceReadBit_def)
  have "v \<noteq> 0 \<longrightarrow> ?new AND push_bit ?n 1 \<noteq> 0" "v = 0 \<longrightarrow> ?new AND push_bit ?n 1 = 0"
    using single_bit(1,2) [OF n] by simp_all
  moreover have "\<forall>j. j \<noteq> ?n \<longrightarrow> bit ?new j = bit ?old j"
    using single_bit(5,6) [OF n] by simp
  ultimately show ?thesis using w r s1(2) by auto
qed

theorem C8_WriteBit_ReadBit_witness:
  "unat (7 :: byte) \<le> 7
   \<and> (\<exists>s1 r s2. I2CDeviceWriteBit (lossless_bus (uniform 0x0F)) 0xB0 0x00 7 1 idle_bus = Some s1
         \<and> I2CDeviceReadBit (lossless_bus (uniform 0x0F)) 0xB0 0x00 7 s1 = Some (r, s2)
         \<and> r \<noteq> 0)"
  using C8_WriteBit_ReadBit [of 7 "uniform 0x0F" "0xB0" 0 1 idle_bus]
  by auto

lemma WriteBit_ReadBit_examples:
  "map_option fst (Option.bind (I2CDeviceWriteBit (lossless_bus (uniform 0x0F)) 0xB0 0x00 7 1 idle_bus)
     (I2CDeviceReadBit (lossless_bus (uniform 0x0F)) 0xB0 0x00 7)) = Some 0x80"
  "map_option (register_of (uniform 0x0F) 0xB0 0x00)
     (I2CDeviceWriteBit (lossless_bus (uniform 0x0F)) 0xB0 0x00 7 1 idle_bus) = Some 0x8F"
  "map_option fst (Option.bind (I2CDeviceWriteBit (lossless_bus (uniform 0x0F)) 0xB0 0x00 0 0 idle_bus)
     (I2CDeviceReadBit (lossless_bus (uniform 0x0F)) 0xB0 0x00 0)) = Some 0"
  "map_option (register_of (uniform 0x0F) 0xB0 0x00)
     (I2CDeviceWriteBit (lossless_bus (uniform 0x0F)) 0xB0 0x00 0 0 idle_bus) = Some 0x0E"
  by code_simp+

text \<open>
  C9, as the code has it. For every bit position \<open>p\<close> from 0 to 7,
  \<^verbatim>\<open>I2CDeviceReadBit\<close> returns the register byte masked with \<^verbatim>\<open>1 << p\<close>: the value
  \<open>2 ^ p\<close> when the bit is set and 0 exactly when it is clear. The result is 1 only for
  \<open>p = 0\<close> with bit 0 set; for the positions 1 to 7 it is never 1.
\<close>

theorem C9_ReadBit_mask:
  assumes "completes hw" and "master_mode hw" and "unat p \<le> 7"
  shows "\<exists>b s'. I2CDeviceReadByte hw dev reg s = Some (b, s')
           \<and> I2CDeviceReadBit hw dev reg p s = Some (b AND push_bit (unat p) 1, s')
           \<and> b AND push_bit (unat p) 1 = (if bit b (unat p) then 2 ^ unat p else 0)
           \<and> (b AND push_bit (unat p) 1 = 0 \<longleftrightarrow> \<not> bit b (unat p))
           \<and> (b AND push_bit (unat p) 1 = 1 \<longleftrightarrow> p = 0 \<and> bit b 0)"
proof -
  from ReadBytes_trace [OF assms(1,2), of dev reg 1 "\<lambda>_. 0" s] obtain data' s' where
    "I2CDeviceReadBytes hw dev reg 1 (\<lambda>_. 0) s = Some (data', s')" by blast
  then have b: "I2CDeviceReadByte hw dev reg s = Some (data' 0, s')"
    by (simp add: I2CDeviceReadByte_def)
  then have "I2CDeviceReadBit hw dev reg p s = Some (data' 0 AND push_bit (unat p) 1, s')"
    by (simp add: I2CDeviceReadBit_def)
  moreover from assms(3) have n: "unat p < 8" by simp
  moreover have "unat p = 0 \<longleftrightarrow> p = 0" by (simp add: unat_eq_0)
  ultimately show ?thesis
    using b mask_one_bit [OF n, of "data' 0"] by auto
qed

theorem C9_ReadBit_mask_witness:
  "completes (lossless_bus (uniform 0x80)) \<and> master_mode (lossless_bus (uniform 0x80)) \<and> unat (7 :: byte) \<le> 7
   \<and> (\<exists>b s'. I2CDeviceReadByte (lossless_bus (uniform 0x80)) 0xB0 0x00 idle_bus = Some (b, s')
        \<and> I2CDeviceReadBit (lossless_bus (uniform 0x80)) 0xB0 0x00 7 idle_bus = Some (b AND 0x80, s'))"
  using C9_ReadBit_mask [OF lossless_completes lossless_master, of 7 "uniform 0x80" "0xB0" 0 idle_bus]
  by (auto simp: lossless_completes lossless_master)

lemma ReadBit_examples:
  "map_option fst (I2CDeviceReadBit (lossless_bus (uniform 0x80)) 0xB0 0x00 7 idle_bus) = Some 0x80"
  "map_option fst (I2CDeviceReadBit (lossless_bus (uniform 0x7F)) 0xB0 0x00 7 idle_bus) = Some 0"
  by code_simp+

text \<open>
  C9 as stated fails at \<open>p = 0\<close>: with bit 0 of the register set the function returns 1.
\<close>

theorem C9_counterexample:
  "map_option fst (I2CDeviceReadBit (lossless_bus (uniform 0x01)) 0xB0 0x00 0 idle_bus) = Some 1"
  by code_simp

section \<open>Bit fields\<close>

text \<open>
  The extraction loop returns only when \<open>len \<le> bitStart\<close>, and then it does. With
  \<open>bitStart < len\<close> the bound \<^verbatim>\<open>bitStart - length\<close> is negative, no value of the
  counter fails the test, and the loop has no result.
\<close>

lemma ReadBits_loop_returns_only_if:
  assumes "ReadBits_loop b bitStart len i r = Some y"
  shows "uint len \<le> uint bitStart"
proof (rule ReadBits_loop.raw_induct [where P = "\<lambda>_ s n _ _ _. uint n \<le> uint s", OF _ assms])
  fix loop :: "byte \<Rightarrow> byte \<Rightarrow> byte \<Rightarrow> byte \<Rightarrow> byte \<Rightarrow> byte option"
  fix b' s n i' r' y' :: byte
  assume IH: "\<And>b s n i r y. loop b s n i r = Some y \<Longrightarrow> uint n \<le> uint s"
    and step: "(if uint s - uint n < uint i'
                then loop b' s n (i' - 1) (r' OR (b' AND push_bit (unat i') 1))
                else Some r') = Some y'"
  show "uint n \<le> uint s"
  proof (rule ccontr)
    assume neg: "\<not> uint n \<le> uint s"
    then have "uint s - uint n < uint i'"
      using uint_ge_0 [of i'] by linarith
    with step have "loop b' s n (i' - 1) (r' OR (b' AND push_bit (unat i') 1)) = Some y'"
      by simp
    from IH [OF this] neg show False by simp
  qed
qed

lemma ReadBits_loop_diverges:
  "uint bitStart < uint len \<Longrightarrow> ReadBits_loop b bitStart len i r = None"
  using ReadBits_loop_returns_only_if [of b bitStart len i r]
  by (cases "ReadBits_loop b bitStart len i r") auto

lemma ReadBits_loop_returns:
  assumes "uint len \<le> uint bitStart"
  shows "\<exists>y. ReadBits_loop b bitStart len i r = Some y"
proof (induction "unat i" arbitrary: i r rule: less_induct)
  case less
  show ?case
  proof (cases "uint i > uint bitStart - uint len")
    case False
    then show ?thesis by (subst ReadBits_loop.simps) simp
  next
    case True
    with assms have "0 < uint i" by linarith
    then have "i \<noteq> 0" by auto
    then have "unat (i - 1) < unat i"
      by (metis diff_less unat_minus_one unat_gt_0 zero_less_one)
    from less [OF this] obtain y where
      "ReadBits_loop b bitStart len (i - 1) (r OR (b AND push_bit (unat i) 1)) = Some y" by blast
    with True show ?thesis by (subst ReadBits_loop.simps) simp
  qed
qed

text \<open>
  C2, evaluated where it fails. Reading the whole byte (\<open>bitStart = 7\<close>, \<open>len = 8\<close>) or
  bit 0 alone (\<open>bitStart = 0\<close>, \<open>len = 1\<close>) is inside the documented range, the register
  read before the loop returns, and \<^verbatim>\<open>I2CDeviceReadBits\<close> has no result.
\<close>

theorem C2_ReadBits_never_returns:
  "map_option fst (I2CDeviceReadByte (lossless_bus (uniform 0xFF)) 0xB0 0x00 idle_bus) = Some 0xFF
   \<and> ReadBits_loop 0xFF 7 8 7 0 = None
   \<and> I2CDeviceReadBits (lossless_bus (uniform 0xFF)) 0xB0 0x00 7 8 idle_bus = None
   \<and> I2CDeviceReadBits (lossless_bus (uniform 0xFF)) 0xB0 0x00 0 1 idle_bus = None"
proof -
  have "map_option fst (I2CDeviceReadByte (lossless_bus (uniform 0xFF)) 0xB0 0x00 idle_bus) = Some 0xFF"
    by code_simp
  moreover have "ReadBits_loop b 7 8 i r = None" "ReadBits_loop b 0 1 i r = None" for b i r
    by (simp_all add: ReadBits_loop_diverges)
  ultimately show ?thesis
    by (auto simp: I2CDeviceReadBits_def split: Option.bind_split)
qed

text \<open>
  The example in the comment of \<^verbatim>\<open>I2CDeviceWriteBits\<close>: register 10101111, value 010,
  \<open>bitStart = 4\<close>, \<open>len = 3\<close>. There the mask is 11100011 and the result 10101011, as
  the comment says. For the other fields the mask depends on \<open>len\<close> where it should
  depend on \<open>bitStart\<close>.
\<close>

lemma WriteBits_comment_example:
  "WriteBits_mask 4 3 = 0xE3"
  "map_option (register_of (uniform 0xAF) 0xB0 0x00)
     (I2CDeviceWriteBits (lossless_bus (uniform 0xAF)) 0xB0 0x00 4 3 2 idle_bus) = Some 0xAB"
  "map_option fst
     (Option.bind (I2CDeviceWriteBits (lossless_bus (uniform 0xAF)) 0xB0 0x00 4 3 2 idle_bus)
                  (I2CDeviceReadBits (lossless_bus (uniform 0xAF)) 0xB0 0x00 4 3)) = Some 2"
  by code_simp+

lemma WriteBits_mask_examples:
  "WriteBits_mask 7 1 = 0x81" "WriteBits_mask 7 4 = 0xF0" "WriteBits_mask 3 2 = 0xCF"
  "WriteBits_mask 7 8 = 0xFF"
  by code_simp+

text \<open>
  C1, evaluated where it fails. With the register at 0xFF, writing the value 0 to the
  field \<open>bitStart = 7\<close>, \<open>len = 1\<close> uses the mask 0x81: bit 7 is not cleared and the bits
  1 to 6 are. The register becomes 0x81 and reading the field back gives 1.
\<close>

theorem C1_WriteBits_ReadBits_fails:
  "map_option (register_of (uniform 0xFF) 0xB0 0x00)
     (I2CDeviceWriteBits (lossless_bus (uniform 0xFF)) 0xB0 0x00 7 1 0 idle_bus) = Some 0x81
   \<and> map_option fst
       (Option.bind (I2CDeviceWriteBits (lossless_bus (uniform 0xFF)) 0xB0 0x00 7 1 0 idle_bus)
                    (I2CDeviceReadBits (lossless_bus (uniform 0xFF)) 0xB0 0x00 7 1)) = Some 1
   \<and> WriteBits_mask 7 1 = 0x81"
  by code_simp

end
